theory Spec2Isabelle
  imports Main "HOL-Library.AList"
begin

section \<open>FullHistoryMerger: the data model\<close>

text \<open>
  The development follows \<^verbatim>\<open>Utilities/Mergers/src/FullHistoryMerger.cxx\<close>. The class
  declaration and the helper namespaces it uses (\<^verbatim>\<open>object_store_helpers\<close>,
  \<^verbatim>\<open>algorithm\<close>) live in headers; what the functions below need from them is taken as a
  parameter (record \<open>Env\<close>) or stated where it is used.
\<close>

type_synonym bytes = "char list"

text \<open>
  \<^verbatim>\<open>ObjectStore\<close> is the variant held by \<^verbatim>\<open>mMergedObject\<close> and by the cache entries; the
  source tests it for \<^verbatim>\<open>std::monostate\<close>, \<^verbatim>\<open>TObjectPtr\<close>, \<^verbatim>\<open>MergeInterfacePtr\<close> and
  \<^verbatim>\<open>VectorOfTObjectPtrs\<close>. The pointed-to objects are values of type \<open>'a\<close>.
\<close>

datatype 'a ObjectStore =
    Monostate
  | TObjectPtr 'a
  | VectorOfTObjectPtrs "'a list"
  | MergeInterfacePtr 'a

text \<open>The fields of \<^verbatim>\<open>DataHeader\<close> that \<^verbatim>\<open>updateCache\<close> reads.\<close>

record DataHeader =
  dataOrigin :: string
  dataDescription :: string
  subSpecification :: nat

text \<open>A valid \<^verbatim>\<open>DataRef\<close> as the input walker delivers it: spec, header and payload.\<close>

record DataRef =
  ref_spec :: string
  ref_header :: DataHeader
  ref_payload :: bytes

text \<open>
  \<^verbatim>\<open>SerializedObject\<close>: three owning pointers, each either null (\<open>None\<close>) or pointing to a
  copy made by \<^verbatim>\<open>updateCache\<close>.
\<close>

record SerializedObject =
  so_spec :: "string option"
  so_header :: "DataHeader option"
  so_payload :: "bytes option"

text \<open>
  One entry of the input record walked by \<^verbatim>\<open>run\<close>: the timer input (the entry whose header
  is \<^verbatim>\<open>timerHeader\<close>) or a data input.
\<close>

datatype Input = TimerPublish | Data DataRef

datatype MergedObjectTimespan = LastDifference | NCycles

text \<open>\<^verbatim>\<open>ConfigEntry\<close>: a value and its integer parameter.\<close>

record MergerConfig =
  mergedObjectTimespan_value :: MergedObjectTimespan
  mergedObjectTimespan_param :: int
  mSubSpec :: nat

datatype DerivedMetricMode = NONE | RATE

text \<open>A metric as handed to \<^verbatim>\<open>mCollector->send\<close>: value, name, mode.\<close>

type_synonym Metric = "int \<times> string \<times> DerivedMetricMode"

text \<open>
  The exceptions and aborts of the source:
  \<^item> \<open>DecodeFailure\<close>: \<^verbatim>\<open>extractObjectFrom\<close> throws;
  \<^item> \<open>BadVariantAccess\<close>: \<^verbatim>\<open>std::get\<close> on a cache entry of another alternative than the
    merged object;
  \<^item> \<open>AssertionFailed\<close>: the \<^verbatim>\<open>assert\<close> in \<^verbatim>\<open>mergeCache\<close>, taken to be enabled: it stops the
    call when the template deserializes to \<^verbatim>\<open>std::monostate\<close>;
  \<^item> \<open>LengthMismatch\<close>: the vector merge is given vectors of different lengths;
  \<^item> \<open>NullHeader\<close>: a template with a payload and no header is deserialized;
  \<^item> \<open>RuntimeError\<close>: the \<^verbatim>\<open>std::runtime_error\<close> thrown by \<^verbatim>\<open>publish\<close>.
\<close>

datatype error =
    DecodeFailure
  | BadVariantAccess
  | AssertionFailed
  | LengthMismatch
  | NullHeader
  | RuntimeError

text \<open>
  The collaborators declared outside the file:
  \<^item> \<open>extractObjectFrom\<close>: \<^verbatim>\<open>object_store_helpers::extractObjectFrom\<close> (both overloads read a
    header and a payload); \<open>None\<close> when it throws;
  \<^item> \<open>algorithm_merge\<close>: \<^verbatim>\<open>algorithm::merge(TObject*, TObject*)\<close>, which changes its target in
    place: the function returns the target's new value;
  \<^item> \<open>mi_merge\<close>: \<^verbatim>\<open>MergeInterface::merge\<close>, likewise;
  \<^item> \<open>snapshot\<close>: \<^verbatim>\<open>object_store_helpers::snapshot\<close>, the hand-off to the output allocator,
    which reports success.
\<close>

record 'a Env =
  extractObjectFrom :: "DataHeader \<Rightarrow> bytes \<Rightarrow> 'a ObjectStore option"
  algorithm_merge :: "'a \<Rightarrow> 'a \<Rightarrow> 'a"
  mi_merge :: "'a \<Rightarrow> 'a \<Rightarrow> 'a"
  snapshot :: "nat \<Rightarrow> 'a ObjectStore \<Rightarrow> bool"

text \<open>
  The fields of a \<^verbatim>\<open>FullHistoryMerger\<close> that the functions change, followed by what its
  two output collaborators have received so far: \<open>allocator\<close> lists the objects handed to
  the \<^verbatim>\<open>DataAllocator\<close> by a successful \<^verbatim>\<open>snapshot\<close>, \<open>mCollector\<close> the metrics sent.
  \<^verbatim>\<open>mCache\<close> is an \<^verbatim>\<open>unordered_map\<close>; it is kept as an association list with distinct keys,
  and the loops of \<^verbatim>\<open>mergeCache\<close> visit it in list order. The counters are C++ \<^verbatim>\<open>int\<close>s,
  modelled without overflow.
\<close>

record 'a FullHistoryMerger =
  mFirstObjectSerialized :: "string \<times> SerializedObject"
  mMergedObject :: "'a ObjectStore"
  mCache :: "(string \<times> 'a ObjectStore) list"
  mCyclesSinceReset :: int
  mTotalObjectsMerged :: int
  mObjectsMerged :: int
  mTotalUpdatesReceived :: int
  mUpdatesReceived :: int
  allocator :: "'a ObjectStore list"
  mCollector :: "Metric list"

text \<open>
  The outcome of a member function: \<open>Inr s\<close> when it returns with the object in state \<open>s\<close>,
  \<open>Inl (e, s)\<close> when \<open>e\<close> is thrown with the object in state \<open>s\<close> at that moment.
\<close>

type_synonym 'a outcome = "(error \<times> 'a FullHistoryMerger) + 'a FullHistoryMerger"

section \<open>The member functions\<close>

definition null_object :: SerializedObject where
  "null_object = \<lparr>so_spec = None, so_header = None, so_payload = None\<rparr>"

text \<open>The object after construction and \<^verbatim>\<open>init\<close>: nothing stored, all counters zero.\<close>

definition init :: "'a FullHistoryMerger" where
  "init = \<lparr>mFirstObjectSerialized = ([], null_object), mMergedObject = Monostate,
            mCache = [], mCyclesSinceReset = 0, mTotalObjectsMerged = 0, mObjectsMerged = 0,
            mTotalUpdatesReceived = 0, mUpdatesReceived = 0, allocator = [], mCollector = []\<rparr>"

definition clear :: "'a FullHistoryMerger \<Rightarrow> 'a FullHistoryMerger" where
  "clear s = s\<lparr>mFirstObjectSerialized := ([], null_object),
               mMergedObject := Monostate,
               mCache := [],
               mCyclesSinceReset := 0,
               mTotalObjectsMerged := 0,
               mObjectsMerged := 0,
               mTotalUpdatesReceived := 0,
               mUpdatesReceived := 0\<rparr>"

text \<open>\<^verbatim>\<open>std::to_string\<close> on an unsigned number: its decimal digits.\<close>

definition digit :: "nat \<Rightarrow> char" where
  "digit d = ''0123456789'' ! d"

fun to_string :: "nat \<Rightarrow> string" where
  "to_string n = (if n < 10 then [digit n] else to_string (n div 10) @ [digit (n mod 10)])"

declare to_string.simps [simp del]

definition sourceID :: "DataHeader \<Rightarrow> string" where
  "sourceID dh = dataOrigin dh @ ''/'' @ dataDescription dh @ ''/'' @ to_string (subSpecification dh)"

text \<open>
  \<^verbatim>\<open>updateCache\<close>. In the assignment \<^verbatim>\<open>mCache[sourceID] = extractObjectFrom(ref)\<close> the right
  operand is evaluated first, so a throwing \<^verbatim>\<open>extractObjectFrom\<close> leaves the map untouched.
\<close>

definition updateCache :: "'a Env \<Rightarrow> 'a FullHistoryMerger \<Rightarrow> DataRef \<Rightarrow> 'a outcome" where
  "updateCache E s ref =
     (let dh = ref_header ref;
          sid = sourceID dh
      in if fst (mFirstObjectSerialized s) = [] \<or> fst (mFirstObjectSerialized s) = sid then
           Inr (s\<lparr>mFirstObjectSerialized :=
                    (sid, \<lparr>so_spec = Some (ref_spec ref), so_header = Some dh,
                           so_payload = Some (ref_payload ref)\<rparr>)\<rparr>)
         else
           (case extractObjectFrom E dh (ref_payload ref) of
              None \<Rightarrow> Inl (DecodeFailure, s)
            | Some obj \<Rightarrow> Inr (s\<lparr>mCache := AList.update sid obj (mCache s)\<rparr>)))"

text \<open>
  The three loops of \<^verbatim>\<open>mergeCache\<close> over the cache entries still to visit. \<open>target\<close> shares
  its object with \<^verbatim>\<open>mMergedObject\<close>, so each merge is written back to that field.
\<close>

fun merge_TObjects :: "'a Env \<Rightarrow> (string \<times> 'a ObjectStore) list \<Rightarrow> 'a \<Rightarrow> 'a FullHistoryMerger \<Rightarrow> 'a outcome" where
  "merge_TObjects E [] target s = Inr s"
| "merge_TObjects E ((name, entry) # rest) target s =
     (case entry of
        TObjectPtr other \<Rightarrow>
          merge_TObjects E rest (algorithm_merge E target other)
            (s\<lparr>mMergedObject := TObjectPtr (algorithm_merge E target other),
               mObjectsMerged := mObjectsMerged s + 1\<rparr>)
      | _ \<Rightarrow> Inl (BadVariantAccess, s))"

fun merge_MergeInterfaces :: "'a Env \<Rightarrow> (string \<times> 'a ObjectStore) list \<Rightarrow> 'a \<Rightarrow> 'a FullHistoryMerger \<Rightarrow> 'a outcome" where
  "merge_MergeInterfaces E [] target s = Inr s"
| "merge_MergeInterfaces E ((name, entry) # rest) target s =
     (case entry of
        MergeInterfacePtr other \<Rightarrow>
          merge_MergeInterfaces E rest (mi_merge E target other)
            (s\<lparr>mMergedObject := MergeInterfacePtr (mi_merge E target other),
               mObjectsMerged := mObjectsMerged s + 1\<rparr>)
      | _ \<Rightarrow> Inl (BadVariantAccess, s))"

text \<open>
  Modelled from the spec: \<^verbatim>\<open>algorithm::merge\<close> on two \<^verbatim>\<open>VectorOfTObjectPtrs\<close> is declared in
  \<^verbatim>\<open>Mergers/MergerAlgorithm.h\<close> and defined outside this file. The spec: "require
  len(accumulator) == len(other); combine elementwise by position".
\<close>

definition merge_vectors :: "'a Env \<Rightarrow> 'a list \<Rightarrow> 'a list \<Rightarrow> 'a list option" where
  "merge_vectors E target other =
     (if length target = length other then Some (map2 (algorithm_merge E) target other) else None)"

fun merge_Vectors :: "'a Env \<Rightarrow> (string \<times> 'a ObjectStore) list \<Rightarrow> 'a list \<Rightarrow> 'a FullHistoryMerger \<Rightarrow> 'a outcome" where
  "merge_Vectors E [] target s = Inr s"
| "merge_Vectors E ((name, entry) # rest) target s =
     (case entry of
        VectorOfTObjectPtrs other \<Rightarrow>
          (case merge_vectors E target other of
             None \<Rightarrow> Inl (LengthMismatch, s)
           | Some target' \<Rightarrow>
               merge_Vectors E rest target'
                 (s\<lparr>mMergedObject := VectorOfTObjectPtrs target',
                    mObjectsMerged := mObjectsMerged s + int (length target')\<rparr>))
      | _ \<Rightarrow> Inl (BadVariantAccess, s))"

definition mergeCache :: "'a Env \<Rightarrow> 'a FullHistoryMerger \<Rightarrow> 'a outcome" where
  "mergeCache E s =
     (case so_payload (snd (mFirstObjectSerialized s)) of
        None \<Rightarrow> Inr s
      | Some p \<Rightarrow>
          (case so_header (snd (mFirstObjectSerialized s)) of
             None \<Rightarrow> Inl (NullHeader, s)
           | Some h \<Rightarrow>
               (case extractObjectFrom E h p of
                  None \<Rightarrow> Inl (DecodeFailure, s)
                | Some Monostate \<Rightarrow> Inl (AssertionFailed, s\<lparr>mMergedObject := Monostate\<rparr>)
                | Some (TObjectPtr target) \<Rightarrow>
                    merge_TObjects E (mCache s) target
                      (s\<lparr>mMergedObject := TObjectPtr target, mObjectsMerged := mObjectsMerged s + 1\<rparr>)
                | Some (MergeInterfacePtr target) \<Rightarrow>
                    merge_MergeInterfaces E (mCache s) target
                      (s\<lparr>mMergedObject := MergeInterfacePtr target, mObjectsMerged := mObjectsMerged s + 1\<rparr>)
                | Some (VectorOfTObjectPtrs target) \<Rightarrow>
                    merge_Vectors E (mCache s) target
                      (s\<lparr>mMergedObject := VectorOfTObjectPtrs target, mObjectsMerged := mObjectsMerged s + 1\<rparr>))))"

text \<open>
  \<^verbatim>\<open>publish\<close>: the hand-off (or the log line, or the throw), then the statistics, which
  follow the \<^verbatim>\<open>if\<close> chain for every branch that does not throw.
\<close>

definition send_stats :: "'a FullHistoryMerger \<Rightarrow> 'a FullHistoryMerger" where
  "send_stats s =
     (let total_objects = mTotalObjectsMerged s + mObjectsMerged s;
          total_updates = mTotalUpdatesReceived s + mUpdatesReceived s
      in s\<lparr>mTotalObjectsMerged := total_objects,
           mTotalUpdatesReceived := total_updates,
           mCollector := mCollector s @
             [(total_objects, ''total_objects_merged'', RATE),
              (mObjectsMerged s, ''objects_merged_since_last_publication'', NONE),
              (total_updates, ''total_updates_received'', RATE),
              (mUpdatesReceived s, ''updates_received_since_last_publication'', NONE),
              (mCyclesSinceReset s, ''cycles_since_reset'', NONE)],
           mObjectsMerged := 0,
           mUpdatesReceived := 0\<rparr>)"

definition publish :: "'a Env \<Rightarrow> MergerConfig \<Rightarrow> 'a FullHistoryMerger \<Rightarrow> 'a outcome" where
  "publish E cfg s =
     (case mMergedObject s of
        Monostate \<Rightarrow> Inr (send_stats s)
      | _ \<Rightarrow>
          if snapshot E (mSubSpec cfg) (mMergedObject s) then
            Inr (send_stats (s\<lparr>allocator := allocator s @ [mMergedObject s]\<rparr>))
          else Inl (RuntimeError, s))"

text \<open>The loop of \<^verbatim>\<open>run\<close> over the input record.\<close>

fun run_inputs :: "'a Env \<Rightarrow> 'a FullHistoryMerger \<Rightarrow> Input list \<Rightarrow> 'a outcome" where
  "run_inputs E s [] = Inr s"
| "run_inputs E s (TimerPublish # rest) = run_inputs E s rest"
| "run_inputs E s (Data ref # rest) =
     (case updateCache E s ref of
        Inl e \<Rightarrow> Inl e
      | Inr s1 \<Rightarrow> run_inputs E (s1\<lparr>mUpdatesReceived := mUpdatesReceived s1 + 1\<rparr>) rest)"

text \<open>The policy test that follows \<^verbatim>\<open>publish\<close> in \<^verbatim>\<open>run\<close>.\<close>

definition clear_after_publish :: "MergerConfig \<Rightarrow> 'a FullHistoryMerger \<Rightarrow> bool" where
  "clear_after_publish cfg s \<longleftrightarrow>
     mergedObjectTimespan_value cfg = LastDifference \<or>
     (mergedObjectTimespan_value cfg = NCycles \<and> mergedObjectTimespan_param cfg = mCyclesSinceReset s)"

text \<open>The second half of \<^verbatim>\<open>run\<close>: the cycle that a valid timer starts when a template is set.\<close>

definition cycle :: "'a Env \<Rightarrow> MergerConfig \<Rightarrow> 'a FullHistoryMerger \<Rightarrow> 'a outcome" where
  "cycle E cfg s =
     (case mergeCache E (s\<lparr>mCyclesSinceReset := mCyclesSinceReset s + 1\<rparr>) of
        Inl e \<Rightarrow> Inl e
      | Inr s1 \<Rightarrow>
          (case publish E cfg s1 of
             Inl e \<Rightarrow> Inl e
           | Inr s2 \<Rightarrow> Inr (if clear_after_publish cfg s2 then clear s2 else s2)))"

definition run :: "'a Env \<Rightarrow> MergerConfig \<Rightarrow> 'a FullHistoryMerger \<Rightarrow> Input list \<Rightarrow> 'a outcome" where
  "run E cfg s inputs =
     (case run_inputs E s inputs of
        Inl e \<Rightarrow> Inl e
      | Inr s1 \<Rightarrow>
          if TimerPublish \<in> set inputs \<and> fst (mFirstObjectSerialized s1) \<noteq> [] then cycle E cfg s1
          else Inr s1)"

definition endOfStream :: "'a Env \<Rightarrow> MergerConfig \<Rightarrow> 'a FullHistoryMerger \<Rightarrow> 'a outcome" where
  "endOfStream E cfg s =
     (case mergeCache E s of
        Inl e \<Rightarrow> Inl e
      | Inr s1 \<Rightarrow> publish E cfg s1)"

section \<open>Sequences of calls\<close>

text \<open>The state in which a call leaves the object, whether it returns or throws.\<close>

fun state_of :: "'a outcome \<Rightarrow> 'a FullHistoryMerger" where
  "state_of (Inl (e, s)) = s"
| "state_of (Inr s) = s"








text \<open>
  The states an instance can be in: the initial one, and the state in which any member
  function leaves the object, on return or at a throw.
\<close>

inductive reachable :: "'a Env \<Rightarrow> MergerConfig \<Rightarrow> 'a FullHistoryMerger \<Rightarrow> bool"
  for E :: "'a Env" and cfg :: MergerConfig where
  reach_init: "reachable E cfg init"
| reach_clear: "reachable E cfg s \<Longrightarrow> reachable E cfg (clear s)"
| reach_updateCache: "reachable E cfg s \<Longrightarrow> reachable E cfg (state_of (updateCache E s ref))"
| reach_mergeCache: "reachable E cfg s \<Longrightarrow> reachable E cfg (state_of (mergeCache E s))"
| reach_publish: "reachable E cfg s \<Longrightarrow> reachable E cfg (state_of (publish E cfg s))"
| reach_run: "reachable E cfg s \<Longrightarrow> reachable E cfg (state_of (run E cfg s inputs))"
| reach_endOfStream: "reachable E cfg s \<Longrightarrow> reachable E cfg (state_of (endOfStream E cfg s))"

text \<open>The template's origin is not a key of the cache.\<close>

definition template_not_cached :: "'a FullHistoryMerger \<Rightarrow> bool" where
  "template_not_cached s \<longleftrightarrow> fst (mFirstObjectSerialized s) \<notin> fst ` set (mCache s)"

text \<open>
  The inductive invariant behind it: in addition, the cache is empty while no template is
  stored.
\<close>

definition store_inv :: "'a FullHistoryMerger \<Rightarrow> bool" where
  "store_inv s \<longleftrightarrow>
     (fst (mFirstObjectSerialized s) = [] \<longrightarrow> mCache s = []) \<and> template_not_cached s"

text \<open>
  A second invariant: an instance without template bytes is as \<^verbatim>\<open>clear\<close> leaves it, with no
  origin, no merged object, an empty cache and all counters at zero.
\<close>

definition unset_inv :: "'a FullHistoryMerger \<Rightarrow> bool" where
  "unset_inv s \<longleftrightarrow>
     (so_payload (snd (mFirstObjectSerialized s)) = None \<longrightarrow>
        mFirstObjectSerialized s = ([], null_object) \<and> mMergedObject s = Monostate \<and>
        mCache s = [] \<and> mCyclesSinceReset s = 0 \<and>
        mTotalObjectsMerged s = 0 \<and> mObjectsMerged s = 0 \<and>
        mTotalUpdatesReceived s = 0 \<and> mUpdatesReceived s = 0)"


section \<open>An example instance\<close>

text \<open>
  Collaborators for the concrete runs below: objects are integers merged by addition (the
  numeric accumulators of the spec's example). A payload's first byte says which kind it
  decodes to, the bytes after it give the value (their number) or the elements (one each,
  of value 1); any other payload cannot be decoded. The flag is what \<^verbatim>\<open>snapshot\<close> reports.
\<close>

definition decode_tagged :: "DataHeader \<Rightarrow> bytes \<Rightarrow> int ObjectStore option" where
  "decode_tagged h p =
     (case p of
        [] \<Rightarrow> None
      | c # cs \<Rightarrow>
          if c = CHR ''T'' then Some (TObjectPtr (int (length cs)))
          else if c = CHR ''M'' then Some (MergeInterfacePtr (int (length cs)))
          else if c = CHR ''V'' then Some (VectorOfTObjectPtrs (map (\<lambda>_. 1) cs))
          else None)"

definition adding_env :: "bool \<Rightarrow> int Env" where
  "adding_env ok = \<lparr>extractObjectFrom = decode_tagged, algorithm_merge = (+), mi_merge = (+),
                     snapshot = (\<lambda>_ _. ok)\<rparr>"

definition test_header :: "string \<Rightarrow> DataHeader" where
  "test_header d = \<lparr>dataOrigin = ''TST'', dataDescription = d, subSpecification = 0\<rparr>"

definition test_ref :: "string \<Rightarrow> bytes \<Rightarrow> DataRef" where
  "test_ref d p = \<lparr>ref_spec = d, ref_header = test_header d, ref_payload = p\<rparr>"

definition ncycles :: "int \<Rightarrow> MergerConfig" where
  "ncycles k = \<lparr>mergedObjectTimespan_value = NCycles, mergedObjectTimespan_param = k, mSubSpec = 0\<rparr>"

definition last_difference :: MergerConfig where
  "last_difference = \<lparr>mergedObjectTimespan_value = LastDifference, mergedObjectTimespan_param = 0, mSubSpec = 0\<rparr>"

text \<open>
  The spec's example: origins A, B and C each submit one singleton accumulator of value 1.
  The same three origins submitting collections of two elements each.
\<close>

definition three_updates :: "Input list" where
  "three_updates = [Data (test_ref ''A'' ''Tx''), Data (test_ref ''B'' ''Tx''), Data (test_ref ''C'' ''Tx'')]"

definition three_collections :: "Input list" where
  "three_collections = [Data (test_ref ''A'' ''Vxx''), Data (test_ref ''B'' ''Vxx''), Data (test_ref ''C'' ''Vxx'')]"


definition template_of :: "string \<Rightarrow> bytes \<Rightarrow> string \<times> SerializedObject" where
  "template_of d p = (''TST/'' @ d @ ''/0'',
     \<lparr>so_spec = Some d, so_header = Some (test_header d), so_payload = Some p\<rparr>)"

section \<open>Basic facts\<close>

lemma sourceID_nonempty: "sourceID dh \<noteq> []"
  by (simp add: sourceID_def)

lemma test_sourceID: "sourceID (test_header d) = ''TST/'' @ d @ ''/0''"
  by (simp add: sourceID_def test_header_def to_string.simps digit_def)

lemma updateCache_template:
  "fst (mFirstObjectSerialized s) = [] \<or> fst (mFirstObjectSerialized s) = sourceID (ref_header ref) \<Longrightarrow>
   updateCache E s ref =
     Inr (s\<lparr>mFirstObjectSerialized :=
              (sourceID (ref_header ref),
               \<lparr>so_spec = Some (ref_spec ref), so_header = Some (ref_header ref),
                  so_payload = Some (ref_payload ref)\<rparr>)\<rparr>)"
  by (auto simp add: updateCache_def Let_def)

lemma updateCache_cache:
  "fst (mFirstObjectSerialized s) \<noteq> [] \<Longrightarrow>
   fst (mFirstObjectSerialized s) \<noteq> sourceID (ref_header ref) \<Longrightarrow>
   updateCache E s ref =
     (case extractObjectFrom E (ref_header ref) (ref_payload ref) of
        None \<Rightarrow> Inl (DecodeFailure, s)
      | Some obj \<Rightarrow> Inr (s\<lparr>mCache := AList.update (sourceID (ref_header ref)) obj (mCache s)\<rparr>))"
  by (simp add: updateCache_def Let_def)

lemmas example_defs =
  updateCache_def test_sourceID init_def adding_env_def decode_tagged_def test_ref_def
  mergeCache_def merge_vectors_def null_object_def template_of_def three_updates_def
  three_collections_def publish_def send_stats_def ncycles_def last_difference_def Let_def

lemma run_inputs_three_updates:
  "run_inputs (adding_env ok) init three_updates =
     Inr (init\<lparr>mFirstObjectSerialized := template_of ''A'' ''Tx'',
               mCache := [(''TST/B/0'', TObjectPtr 1), (''TST/C/0'', TObjectPtr 1)],
               mUpdatesReceived := 3\<rparr>)"
  by (simp add: example_defs)

lemma mergeCache_three_updates:
  "mergeCache (adding_env ok)
     (init\<lparr>mFirstObjectSerialized := template_of ''A'' ''Tx'',
           mCache := [(''TST/B/0'', TObjectPtr 1), (''TST/C/0'', TObjectPtr 1)],
           mUpdatesReceived := 3, mCyclesSinceReset := 1\<rparr>) =
     Inr (init\<lparr>mFirstObjectSerialized := template_of ''A'' ''Tx'',
               mCache := [(''TST/B/0'', TObjectPtr 1), (''TST/C/0'', TObjectPtr 1)],
               mUpdatesReceived := 3, mCyclesSinceReset := 1,
               mMergedObject := TObjectPtr 3, mObjectsMerged := 3\<rparr>)"
  by (simp add: example_defs)

lemma merge_TObjects_frame:
  "state_of (merge_TObjects E c t s) =
     s\<lparr>mMergedObject := mMergedObject (state_of (merge_TObjects E c t s)),
       mObjectsMerged := mObjectsMerged (state_of (merge_TObjects E c t s))\<rparr>"
proof (induction c arbitrary: t s)
  case Nil
  show ?case by simp
next
  case (Cons p c)
  obtain name entry where p: "p = (name, entry)" by (cases p)
  show ?case
  proof (cases entry)
    case (TObjectPtr other)
    let ?s1 = "s\<lparr>mMergedObject := TObjectPtr (algorithm_merge E t other), mObjectsMerged := mObjectsMerged s + 1\<rparr>"
    let ?r = "merge_TObjects E c (algorithm_merge E t other) ?s1"
    have "state_of ?r = ?s1\<lparr>mMergedObject := mMergedObject (state_of ?r), mObjectsMerged := mObjectsMerged (state_of ?r)\<rparr>"
      by (rule Cons.IH)
    then have "state_of ?r = s\<lparr>mMergedObject := mMergedObject (state_of ?r), mObjectsMerged := mObjectsMerged (state_of ?r)\<rparr>"
      by simp
    then show ?thesis using p TObjectPtr by simp
  qed (simp_all add: p)
qed

lemma merge_TObjects_kind:
  "merge_TObjects E c t s = Inr s' \<Longrightarrow> mMergedObject s \<noteq> Monostate \<Longrightarrow> mMergedObject s' \<noteq> Monostate"
proof (induction c arbitrary: t s)
  case Nil
  then show ?case by simp
next
  case (Cons p c)
  obtain name entry where p: "p = (name, entry)" by (cases p)
  from Cons.prems show ?case
    by (cases entry) (auto simp add: p dest!: Cons.IH)
qed

lemma merge_MergeInterfaces_frame:
  "state_of (merge_MergeInterfaces E c t s) =
     s\<lparr>mMergedObject := mMergedObject (state_of (merge_MergeInterfaces E c t s)),
       mObjectsMerged := mObjectsMerged (state_of (merge_MergeInterfaces E c t s))\<rparr>"
proof (induction c arbitrary: t s)
  case Nil
  show ?case by simp
next
  case (Cons p c)
  obtain name entry where p: "p = (name, entry)" by (cases p)
  show ?case
  proof (cases entry)
    case (MergeInterfacePtr other)
    let ?s1 = "s\<lparr>mMergedObject := MergeInterfacePtr (mi_merge E t other), mObjectsMerged := mObjectsMerged s + 1\<rparr>"
    let ?r = "merge_MergeInterfaces E c (mi_merge E t other) ?s1"
    have "state_of ?r = ?s1\<lparr>mMergedObject := mMergedObject (state_of ?r), mObjectsMerged := mObjectsMerged (state_of ?r)\<rparr>"
      by (rule Cons.IH)
    then have "state_of ?r = s\<lparr>mMergedObject := mMergedObject (state_of ?r), mObjectsMerged := mObjectsMerged (state_of ?r)\<rparr>"
      by simp
    then show ?thesis using p MergeInterfacePtr by simp
  qed (simp_all add: p)
qed

lemma merge_MergeInterfaces_kind:
  "merge_MergeInterfaces E c t s = Inr s' \<Longrightarrow> mMergedObject s \<noteq> Monostate \<Longrightarrow> mMergedObject s' \<noteq> Monostate"
proof (induction c arbitrary: t s)
  case Nil
  then show ?case by simp
next
  case (Cons p c)
  obtain name entry where p: "p = (name, entry)" by (cases p)
  from Cons.prems show ?case
    by (cases entry) (auto simp add: p dest!: Cons.IH)
qed

lemma merge_Vectors_frame:
  "state_of (merge_Vectors E c t s) =
     s\<lparr>mMergedObject := mMergedObject (state_of (merge_Vectors E c t s)),
       mObjectsMerged := mObjectsMerged (state_of (merge_Vectors E c t s))\<rparr>"
proof (induction c arbitrary: t s)
  case Nil
  show ?case by simp
next
  case (Cons p c)
  obtain name entry where p: "p = (name, entry)" by (cases p)
  show ?case
  proof (cases entry)
    case (VectorOfTObjectPtrs other)
    show ?thesis
    proof (cases "merge_vectors E t other")
      case None
      then show ?thesis using p VectorOfTObjectPtrs by simp
    next
      case (Some t')
      let ?s1 = "s\<lparr>mMergedObject := VectorOfTObjectPtrs t', mObjectsMerged := mObjectsMerged s + int (length t')\<rparr>"
      let ?r = "merge_Vectors E c t' ?s1"
      have "state_of ?r = ?s1\<lparr>mMergedObject := mMergedObject (state_of ?r), mObjectsMerged := mObjectsMerged (state_of ?r)\<rparr>"
        by (rule Cons.IH)
      then have "state_of ?r = s\<lparr>mMergedObject := mMergedObject (state_of ?r), mObjectsMerged := mObjectsMerged (state_of ?r)\<rparr>"
        by simp
      then show ?thesis using p VectorOfTObjectPtrs Some by simp
    qed
  qed (simp_all add: p)
qed

lemma merge_Vectors_kind:
  "merge_Vectors E c t s = Inr s' \<Longrightarrow> mMergedObject s \<noteq> Monostate \<Longrightarrow> mMergedObject s' \<noteq> Monostate"
proof (induction c arbitrary: t s)
  case Nil
  then show ?case by simp
next
  case (Cons p c)
  obtain name entry where p: "p = (name, entry)" by (cases p)
  from Cons.prems show ?case
    by (cases entry) (auto simp add: p split: option.splits dest!: Cons.IH)
qed

lemma mergeCache_frame:
  "state_of (mergeCache E s) =
     s\<lparr>mMergedObject := mMergedObject (state_of (mergeCache E s)),
       mObjectsMerged := mObjectsMerged (state_of (mergeCache E s))\<rparr>"
proof (cases "so_payload (snd (mFirstObjectSerialized s))")
  case None
  then show ?thesis by (simp add: mergeCache_def)
next
  case (Some p)
  note payload = Some
  show ?thesis
  proof (cases "so_header (snd (mFirstObjectSerialized s))")
    case None
    then show ?thesis using payload by (simp add: mergeCache_def)
  next
    case (Some h)
    note header = Some
    show ?thesis
    proof (cases "extractObjectFrom E h p")
      case None
      then show ?thesis using payload header by (simp add: mergeCache_def)
    next
      case (Some obj)
      show ?thesis
      proof (cases obj)
        case Monostate
        then show ?thesis using payload header Some by (simp add: mergeCache_def)
      next
        case (TObjectPtr t)
        let ?s1 = "s\<lparr>mMergedObject := TObjectPtr t, mObjectsMerged := mObjectsMerged s + 1\<rparr>"
        have eq: "mergeCache E s = merge_TObjects E (mCache s) t ?s1"
          using payload header Some TObjectPtr by (simp add: mergeCache_def)
        have "state_of (merge_TObjects E (mCache s) t ?s1) =
           ?s1\<lparr>mMergedObject := mMergedObject (state_of (merge_TObjects E (mCache s) t ?s1)),
                mObjectsMerged := mObjectsMerged (state_of (merge_TObjects E (mCache s) t ?s1))\<rparr>"
          by (rule merge_TObjects_frame)
        then show ?thesis unfolding eq by simp
      next
        case (MergeInterfacePtr t)
        let ?s1 = "s\<lparr>mMergedObject := MergeInterfacePtr t, mObjectsMerged := mObjectsMerged s + 1\<rparr>"
        have eq: "mergeCache E s = merge_MergeInterfaces E (mCache s) t ?s1"
          using payload header Some MergeInterfacePtr by (simp add: mergeCache_def)
        have "state_of (merge_MergeInterfaces E (mCache s) t ?s1) =
           ?s1\<lparr>mMergedObject := mMergedObject (state_of (merge_MergeInterfaces E (mCache s) t ?s1)),
                mObjectsMerged := mObjectsMerged (state_of (merge_MergeInterfaces E (mCache s) t ?s1))\<rparr>"
          by (rule merge_MergeInterfaces_frame)
        then show ?thesis unfolding eq by simp
      next
        case (VectorOfTObjectPtrs t)
        let ?s1 = "s\<lparr>mMergedObject := VectorOfTObjectPtrs t, mObjectsMerged := mObjectsMerged s + 1\<rparr>"
        have eq: "mergeCache E s = merge_Vectors E (mCache s) t ?s1"
          using payload header Some VectorOfTObjectPtrs by (simp add: mergeCache_def)
        have "state_of (merge_Vectors E (mCache s) t ?s1) =
           ?s1\<lparr>mMergedObject := mMergedObject (state_of (merge_Vectors E (mCache s) t ?s1)),
                mObjectsMerged := mObjectsMerged (state_of (merge_Vectors E (mCache s) t ?s1))\<rparr>"
          by (rule merge_Vectors_frame)
        then show ?thesis unfolding eq by simp
      qed
    qed
  qed
qed

lemma mergeCache_no_payload:
  "so_payload (snd (mFirstObjectSerialized s)) = None \<Longrightarrow> mergeCache E s = Inr s"
  by (simp add: mergeCache_def)

lemma mergeCache_result_kind:
  assumes "mergeCache E s = Inr s'"
    and "so_payload (snd (mFirstObjectSerialized s)) \<noteq> None"
  shows "mMergedObject s' \<noteq> Monostate"
  using assms
  by (auto simp add: mergeCache_def split: option.splits ObjectStore.splits
      dest: merge_TObjects_kind merge_MergeInterfaces_kind merge_Vectors_kind)

lemma mergeCache_Monostate:
  assumes "mergeCache E s = Inr s'" and "mMergedObject s' = Monostate"
  shows "s' = s"
proof -
  have "so_payload (snd (mFirstObjectSerialized s)) = None"
    using assms mergeCache_result_kind by blast
  then show ?thesis using assms(1) by (simp add: mergeCache_no_payload)
qed

section \<open>\<^verbatim>\<open>clear\<close>\<close>

text \<open>
  C5. After \<^verbatim>\<open>clear\<close>, from any state, the template slot is empty (no origin, no bytes), the
  cache is empty, no merged object is held, and the five counters are zero, the two totals
  included.
\<close>

theorem clear_resets_everything:
  "mFirstObjectSerialized (clear s) = ([], null_object)
   \<and> so_payload (snd (mFirstObjectSerialized (clear s))) = None
   \<and> mMergedObject (clear s) = Monostate
   \<and> mCache (clear s) = []
   \<and> mCyclesSinceReset (clear s) = 0
   \<and> mObjectsMerged (clear s) = 0
   \<and> mTotalObjectsMerged (clear s) = 0
   \<and> mUpdatesReceived (clear s) = 0
   \<and> mTotalUpdatesReceived (clear s) = 0"
  by (simp add: clear_def null_object_def)

section \<open>\<^verbatim>\<open>publish\<close>\<close>

text \<open>
  C10. When the merged object is not empty and the hand-off to the allocator reports
  failure, \<^verbatim>\<open>publish\<close> throws and the object is exactly as it was before the call: the
  totals are not incremented, the per-cycle counters are not zeroed, nothing is recorded
  as emitted and no metric is sent.
\<close>

theorem publish_failure_is_atomic:
  assumes "mMergedObject s \<noteq> Monostate"
    and "\<not> snapshot E (mSubSpec cfg) (mMergedObject s)"
  shows "publish E cfg s = Inl (RuntimeError, s)"
  using assms by (cases "mMergedObject s") (simp_all add: publish_def)

theorem publish_failure_is_atomic_witness:
  "mMergedObject
     (init\<lparr>mFirstObjectSerialized := template_of ''A'' ''Tx'',
           mCache := [(''TST/B/0'', TObjectPtr 1), (''TST/C/0'', TObjectPtr 1)],
           mUpdatesReceived := 3, mCyclesSinceReset := 1,
           mMergedObject := TObjectPtr (3 :: int), mObjectsMerged := 3\<rparr>) \<noteq> Monostate
   \<and> \<not> snapshot (adding_env False) (mSubSpec (ncycles 1)) (TObjectPtr 3)
   \<and> publish (adding_env False) (ncycles 1)
       (init\<lparr>mFirstObjectSerialized := template_of ''A'' ''Tx'',
             mCache := [(''TST/B/0'', TObjectPtr 1), (''TST/C/0'', TObjectPtr 1)],
             mUpdatesReceived := 3, mCyclesSinceReset := 1,
             mMergedObject := TObjectPtr 3, mObjectsMerged := 3\<rparr>) =
     Inl (RuntimeError,
       init\<lparr>mFirstObjectSerialized := template_of ''A'' ''Tx'',
            mCache := [(''TST/B/0'', TObjectPtr 1), (''TST/C/0'', TObjectPtr 1)],
            mUpdatesReceived := 3, mCyclesSinceReset := 1,
            mMergedObject := TObjectPtr 3, mObjectsMerged := 3\<rparr>)"
  using publish_failure_is_atomic
    [of "init\<lparr>mFirstObjectSerialized := template_of ''A'' ''Tx'',
           mCache := [(''TST/B/0'', TObjectPtr 1), (''TST/C/0'', TObjectPtr 1)],
           mUpdatesReceived := 3, mCyclesSinceReset := 1,
           mMergedObject := TObjectPtr (3 :: int), mObjectsMerged := 3\<rparr>"
        "adding_env False" "ncycles 1"]
  by (simp add: adding_env_def)

section \<open>Counting merged objects\<close>

text \<open>
  In general: with a template that deserializes to a collection of N elements and a cache
  of M collections of N elements each, \<^verbatim>\<open>mergeCache\<close> returns and has added 1 + M * N to
  \<^verbatim>\<open>mObjectsMerged\<close>.
\<close>

lemma merge_vectors_length:
  "merge_vectors E target other = Some target' \<Longrightarrow> length target' = length target"
  by (auto simp add: merge_vectors_def split: if_splits)

lemma merge_Vectors_count:
  assumes "\<forall>entry \<in> snd ` set c. \<exists>other. entry = VectorOfTObjectPtrs other \<and> length other = length t"
  shows "\<exists>s'. merge_Vectors E c t s = Inr s'
     \<and> mObjectsMerged s' = mObjectsMerged s + int (length c * length t)"
  using assms
proof (induction c arbitrary: t s)
  case Nil
  then show ?case by simp
next
  case (Cons p c)
  obtain name other where p: "p = (name, VectorOfTObjectPtrs other)" and len: "length other = length t"
    using Cons.prems by (cases p) auto
  let ?t' = "map2 (algorithm_merge E) t other"
  have m: "merge_vectors E t other = Some ?t'" "length ?t' = length t"
    using len by (simp_all add: merge_vectors_def)
  let ?s1 = "s\<lparr>mMergedObject := VectorOfTObjectPtrs ?t', mObjectsMerged := mObjectsMerged s + int (length ?t')\<rparr>"
  have "\<exists>s'. merge_Vectors E c ?t' ?s1 = Inr s'
      \<and> mObjectsMerged s' = mObjectsMerged ?s1 + int (length c * length ?t')"
    using Cons.prems m(2) by (intro Cons.IH) simp
  then show ?case using p m by (auto simp add: algebra_simps)
qed

lemma mergeCache_Vectors_count:
  assumes "so_payload (snd (mFirstObjectSerialized s)) = Some p"
    and "so_header (snd (mFirstObjectSerialized s)) = Some h"
    and "extractObjectFrom E h p = Some (VectorOfTObjectPtrs t)"
    and "\<forall>entry \<in> snd ` set (mCache s). \<exists>other. entry = VectorOfTObjectPtrs other \<and> length other = length t"
  shows "\<exists>s'. mergeCache E s = Inr s'
     \<and> mObjectsMerged s' = mObjectsMerged s + 1 + int (length (mCache s) * length t)"
  using merge_Vectors_count [OF assms(4), of E
      "s\<lparr>mMergedObject := VectorOfTObjectPtrs t, mObjectsMerged := mObjectsMerged s + 1\<rparr>"] assms(1-3)
  by (simp add: mergeCache_def)

text \<open>
  C2 at a concrete input. Origins A, B and C each deliver a collection of two elements; A
  becomes the template, B and C are cached (M = 2, N = 2). \<^verbatim>\<open>mergeCache\<close> counts 1 for the
  template and 2 for each cache entry: \<^verbatim>\<open>mObjectsMerged\<close> goes from 0 to 5, not to
  (M + 1) * N = 6.
\<close>

theorem collection_template_counted_once:
  "run_inputs (adding_env True) init three_collections =
     Inr (init\<lparr>mFirstObjectSerialized := template_of ''A'' ''Vxx'',
               mCache := [(''TST/B/0'', VectorOfTObjectPtrs [1, 1]), (''TST/C/0'', VectorOfTObjectPtrs [1, 1])],
               mUpdatesReceived := 3\<rparr>)
   \<and> mergeCache (adding_env True)
       (init\<lparr>mFirstObjectSerialized := template_of ''A'' ''Vxx'',
             mCache := [(''TST/B/0'', VectorOfTObjectPtrs [1, 1]), (''TST/C/0'', VectorOfTObjectPtrs [1, 1])],
             mUpdatesReceived := 3\<rparr>) =
     Inr (init\<lparr>mFirstObjectSerialized := template_of ''A'' ''Vxx'',
               mCache := [(''TST/B/0'', VectorOfTObjectPtrs [1, 1]), (''TST/C/0'', VectorOfTObjectPtrs [1, 1])],
               mUpdatesReceived := 3,
               mMergedObject := VectorOfTObjectPtrs [3, 3],
               mObjectsMerged := 5\<rparr>)"
  by (simp add: example_defs)

section \<open>The store invariant\<close>

lemma mergeCache_fields:
  "mFirstObjectSerialized (state_of (mergeCache E s)) = mFirstObjectSerialized s"
  "mCache (state_of (mergeCache E s)) = mCache s"
  "mCyclesSinceReset (state_of (mergeCache E s)) = mCyclesSinceReset s"
  "mTotalObjectsMerged (state_of (mergeCache E s)) = mTotalObjectsMerged s"
  "mTotalUpdatesReceived (state_of (mergeCache E s)) = mTotalUpdatesReceived s"
  "mUpdatesReceived (state_of (mergeCache E s)) = mUpdatesReceived s"
  "allocator (state_of (mergeCache E s)) = allocator s"
  "mCollector (state_of (mergeCache E s)) = mCollector s"
  by (subst mergeCache_frame, simp)+

lemma publish_fields:
  "mFirstObjectSerialized (state_of (publish E cfg s)) = mFirstObjectSerialized s"
  "mCache (state_of (publish E cfg s)) = mCache s"
  "mCyclesSinceReset (state_of (publish E cfg s)) = mCyclesSinceReset s"
  "mMergedObject (state_of (publish E cfg s)) = mMergedObject s"
  by (simp_all add: publish_def send_stats_def Let_def split: ObjectStore.splits)

lemma store_inv_cong:
  "mFirstObjectSerialized s' = mFirstObjectSerialized s \<Longrightarrow> mCache s' = mCache s \<Longrightarrow>
   store_inv s' = store_inv s"
  by (simp add: store_inv_def template_not_cached_def)

lemma store_inv_init: "store_inv init"
  by (simp add: store_inv_def template_not_cached_def init_def)

lemma store_inv_clear: "store_inv (clear s)"
  by (simp add: store_inv_def template_not_cached_def clear_def)

lemma store_inv_updateCache:
  assumes "store_inv s"
  shows "store_inv (state_of (updateCache E s ref))"
proof (cases "fst (mFirstObjectSerialized s) = [] \<or> fst (mFirstObjectSerialized s) = sourceID (ref_header ref)")
  case True
  then show ?thesis
    using assms sourceID_nonempty [of "ref_header ref"]
    by (force simp add: updateCache_template store_inv_def template_not_cached_def)
next
  case False
  then show ?thesis
    using assms
    by (auto simp add: updateCache_cache store_inv_def template_not_cached_def dom_update
        split: option.splits)
qed

lemma store_inv_mergeCache: "store_inv s \<Longrightarrow> store_inv (state_of (mergeCache E s))"
  by (simp add: store_inv_cong [of "state_of (mergeCache E s)" s] mergeCache_fields)

lemma store_inv_publish: "store_inv s \<Longrightarrow> store_inv (state_of (publish E cfg s))"
  by (simp add: store_inv_cong [of "state_of (publish E cfg s)" s] publish_fields)

lemma store_inv_run_inputs: "store_inv s \<Longrightarrow> store_inv (state_of (run_inputs E s inputs))"
proof (induction inputs arbitrary: s)
  case Nil
  then show ?case by simp
next
  case (Cons i inputs)
  show ?case
  proof (cases i)
    case TimerPublish
    then show ?thesis using Cons by simp
  next
    case (Data ref)
    show ?thesis
    proof (cases "updateCache E s ref")
      case (Inl es)
      then show ?thesis
        using store_inv_updateCache [OF Cons.prems, of E ref] Data by (cases es) simp
    next
      case (Inr s1)
      have "store_inv s1"
        using store_inv_updateCache [OF Cons.prems, of E ref] Inr by simp
      then have "store_inv (s1\<lparr>mUpdatesReceived := mUpdatesReceived s1 + 1\<rparr>)"
        by (simp add: store_inv_def template_not_cached_def)
      then show ?thesis using Cons.IH Data Inr by simp
    qed
  qed
qed

lemma state_of_cases:
  obtains (thrown) e s' where "r = Inl (e, s')" "state_of r = s'"
  | (returned) s' where "r = Inr s'" "state_of r = s'"
  by (cases r) auto

lemma store_inv_endOfStream:
  assumes "store_inv s"
  shows "store_inv (state_of (endOfStream E cfg s))"
proof (cases "mergeCache E s" rule: state_of_cases)
  case (thrown e s')
  then show ?thesis using store_inv_mergeCache [OF assms, of E] by (simp add: endOfStream_def)
next
  case (returned s')
  then show ?thesis
    using store_inv_mergeCache [OF assms, of E] store_inv_publish [of s' E cfg]
    by (simp add: endOfStream_def)
qed

lemma store_inv_cycle:
  assumes "store_inv s"
  shows "store_inv (state_of (cycle E cfg s))"
proof -
  let ?s0 = "s\<lparr>mCyclesSinceReset := mCyclesSinceReset s + 1\<rparr>"
  have s0: "store_inv ?s0"
    using assms by (simp add: store_inv_def template_not_cached_def)
  show ?thesis
  proof (cases "mergeCache E ?s0" rule: state_of_cases)
    case (thrown e s')
    then show ?thesis using store_inv_mergeCache [OF s0, of E] by (simp add: cycle_def)
  next
    case (returned s1)
    then have s1: "store_inv s1" using store_inv_mergeCache [OF s0, of E] by simp
    show ?thesis
    proof (cases "publish E cfg s1" rule: state_of_cases)
      case (thrown e s')
      then show ?thesis using store_inv_publish [OF s1, of E cfg] returned by (simp add: cycle_def)
    next
      case (returned s2)
      then show ?thesis
        using store_inv_publish [OF s1, of E cfg] \<open>mergeCache E ?s0 = Inr s1\<close>
        by (simp add: cycle_def store_inv_clear)
    qed
  qed
qed

lemma store_inv_run:
  assumes "store_inv s"
  shows "store_inv (state_of (run E cfg s inputs))"
proof (cases "run_inputs E s inputs" rule: state_of_cases)
  case (thrown e s')
  then show ?thesis using store_inv_run_inputs [OF assms, of E inputs] by (simp add: run_def)
next
  case (returned s1)
  then show ?thesis
    using store_inv_run_inputs [OF assms, of E inputs] store_inv_cycle [of s1 E cfg]
    by (simp add: run_def)
qed

lemma reachable_store_inv: "reachable E cfg s \<Longrightarrow> store_inv s"
  by (induction rule: reachable.induct)
    (simp_all add: store_inv_init store_inv_clear store_inv_updateCache store_inv_mergeCache
      store_inv_publish store_inv_run store_inv_endOfStream)

text \<open>
  C7. In every state an instance can reach from the initial one by \<^verbatim>\<open>updateCache\<close>,
  \<^verbatim>\<open>mergeCache\<close>, \<^verbatim>\<open>publish\<close>, \<^verbatim>\<open>clear\<close>, \<^verbatim>\<open>run\<close> and \<^verbatim>\<open>endOfStream\<close>, whether
  they return or throw, the origin held in the template slot is not a key of the cache.
\<close>

theorem template_origin_never_cached:
  assumes "reachable E cfg s"
  shows "template_not_cached s"
  using reachable_store_inv [OF assms] by (simp add: store_inv_def)

theorem template_origin_never_cached_witness:
  "reachable (adding_env True) (ncycles 2) (state_of (run (adding_env True) (ncycles 2) init (three_updates @ [TimerPublish])))
   \<and> state_of (run (adding_env True) (ncycles 2) init (three_updates @ [TimerPublish])) =
       init\<lparr>mFirstObjectSerialized := template_of ''A'' ''Tx'',
            mCache := [(''TST/B/0'', TObjectPtr 1), (''TST/C/0'', TObjectPtr 1)],
            mCyclesSinceReset := 1, mMergedObject := TObjectPtr 3,
            mTotalObjectsMerged := 3, mTotalUpdatesReceived := 3,
            allocator := [TObjectPtr 3],
            mCollector := [(3, ''total_objects_merged'', RATE),
              (3, ''objects_merged_since_last_publication'', NONE),
              (3, ''total_updates_received'', RATE),
              (3, ''updates_received_since_last_publication'', NONE),
              (1, ''cycles_since_reset'', NONE)]\<rparr>
   \<and> template_not_cached (state_of (run (adding_env True) (ncycles 2) init (three_updates @ [TimerPublish])))"
proof -
  have r: "reachable (adding_env True) (ncycles 2)
      (state_of (run (adding_env True) (ncycles 2) init (three_updates @ [TimerPublish])))"
    by (rule reach_run [OF reach_init])
  have e: "state_of (run (adding_env True) (ncycles 2) init (three_updates @ [TimerPublish])) =
       init\<lparr>mFirstObjectSerialized := template_of ''A'' ''Tx'',
            mCache := [(''TST/B/0'', TObjectPtr 1), (''TST/C/0'', TObjectPtr 1)],
            mCyclesSinceReset := 1, mMergedObject := TObjectPtr 3,
            mTotalObjectsMerged := 3, mTotalUpdatesReceived := 3,
            allocator := [TObjectPtr 3],
            mCollector := [(3, ''total_objects_merged'', RATE),
              (3, ''objects_merged_since_last_publication'', NONE),
              (3, ''total_updates_received'', RATE),
              (3, ''updates_received_since_last_publication'', NONE),
              (1, ''cycles_since_reset'', NONE)]\<rparr>"
    by (simp add: run_def cycle_def clear_after_publish_def example_defs)
  show ?thesis using r e template_origin_never_cached [OF r] by simp
qed

section \<open>An instance without a template\<close>

lemma unset_inv_init: "unset_inv init"
  by (simp add: unset_inv_def init_def)

lemma unset_inv_clear: "unset_inv (clear s)"
  by (simp add: unset_inv_def clear_def)

lemma unset_inv_stored:
  "so_payload (snd (mFirstObjectSerialized s)) \<noteq> None \<Longrightarrow> unset_inv s"
  by (auto simp add: unset_inv_def)

lemma updateCache_payload:
  assumes "unset_inv s" and "updateCache E s ref = Inr s'"
  shows "so_payload (snd (mFirstObjectSerialized s')) \<noteq> None"
proof (cases "fst (mFirstObjectSerialized s) = [] \<or> fst (mFirstObjectSerialized s) = sourceID (ref_header ref)")
  case True
  then show ?thesis using assms(2) by (auto simp add: updateCache_template)
next
  case False
  then have "so_payload (snd (mFirstObjectSerialized s)) \<noteq> None"
    using assms(1) by (auto simp add: unset_inv_def)
  then show ?thesis
    using False assms(2) by (auto simp add: updateCache_cache split: option.splits)
qed

lemma unset_inv_updateCache:
  assumes "unset_inv s"
  shows "unset_inv (state_of (updateCache E s ref))"
proof (cases "updateCache E s ref" rule: state_of_cases)
  case (thrown e s')
  then have "s' = s"
    by (auto simp add: updateCache_def Let_def split: if_splits option.splits)
  then show ?thesis using thrown assms by simp
next
  case (returned s')
  then show ?thesis using updateCache_payload [OF assms, of E ref s'] by (simp add: unset_inv_stored)
qed

lemma unset_inv_mergeCache:
  assumes "unset_inv s"
  shows "unset_inv (state_of (mergeCache E s))"
proof (cases "so_payload (snd (mFirstObjectSerialized s))")
  case None
  then show ?thesis using assms by (simp add: mergeCache_no_payload)
next
  case (Some p)
  then show ?thesis by (intro unset_inv_stored) (simp add: mergeCache_fields)
qed

lemma unset_inv_publish:
  assumes "unset_inv s"
  shows "unset_inv (state_of (publish E cfg s))"
proof (cases "so_payload (snd (mFirstObjectSerialized s))")
  case None
  then show ?thesis
    using assms by (simp add: unset_inv_def publish_def send_stats_def Let_def)
next
  case (Some p)
  then show ?thesis by (intro unset_inv_stored) (simp add: publish_fields)
qed

lemma unset_inv_run_inputs:
  "unset_inv s \<Longrightarrow> unset_inv (state_of (run_inputs E s inputs))"
proof (induction inputs arbitrary: s)
  case Nil
  then show ?case by simp
next
  case (Cons i inputs)
  show ?case
  proof (cases i)
    case TimerPublish
    then show ?thesis using Cons by simp
  next
    case (Data ref)
    show ?thesis
    proof (cases "updateCache E s ref" rule: state_of_cases)
      case (thrown e s')
      then show ?thesis using unset_inv_updateCache [OF Cons.prems, of E ref] Data by simp
    next
      case (returned s1)
      have "so_payload (snd (mFirstObjectSerialized s1)) \<noteq> None"
        using updateCache_payload [OF Cons.prems returned(1)] .
      then have "unset_inv (s1\<lparr>mUpdatesReceived := mUpdatesReceived s1 + 1\<rparr>)"
        by (intro unset_inv_stored) simp
      then show ?thesis using Cons.IH Data returned by simp
    qed
  qed
qed

lemma unset_inv_endOfStream:
  assumes "unset_inv s"
  shows "unset_inv (state_of (endOfStream E cfg s))"
proof (cases "mergeCache E s" rule: state_of_cases)
  case (thrown e s')
  then show ?thesis using unset_inv_mergeCache [OF assms, of E] by (simp add: endOfStream_def)
next
  case (returned s')
  then show ?thesis
    using unset_inv_mergeCache [OF assms, of E] unset_inv_publish [of s' E cfg]
    by (simp add: endOfStream_def)
qed

lemma unset_inv_cycle:
  assumes "unset_inv s" and "fst (mFirstObjectSerialized s) \<noteq> []"
  shows "unset_inv (state_of (cycle E cfg s))"
proof -
  let ?s0 = "s\<lparr>mCyclesSinceReset := mCyclesSinceReset s + 1\<rparr>"
  have "so_payload (snd (mFirstObjectSerialized s)) \<noteq> None"
    using assms by (auto simp add: unset_inv_def)
  then have s0: "unset_inv ?s0"
    by (intro unset_inv_stored) simp
  show ?thesis
  proof (cases "mergeCache E ?s0" rule: state_of_cases)
    case (thrown e s')
    then show ?thesis using unset_inv_mergeCache [OF s0, of E] by (simp add: cycle_def)
  next
    case (returned s1)
    then have s1: "unset_inv s1" using unset_inv_mergeCache [OF s0, of E] by simp
    show ?thesis
    proof (cases "publish E cfg s1" rule: state_of_cases)
      case (thrown e s')
      then show ?thesis using unset_inv_publish [OF s1, of E cfg] returned by (simp add: cycle_def)
    next
      case (returned s2)
      then show ?thesis
        using unset_inv_publish [OF s1, of E cfg] \<open>mergeCache E ?s0 = Inr s1\<close>
        by (simp add: cycle_def unset_inv_clear)
    qed
  qed
qed

lemma unset_inv_run:
  assumes "unset_inv s"
  shows "unset_inv (state_of (run E cfg s inputs))"
proof (cases "run_inputs E s inputs" rule: state_of_cases)
  case (thrown e s')
  then show ?thesis using unset_inv_run_inputs [OF assms, of E inputs] by (simp add: run_def)
next
  case (returned s1)
  then show ?thesis
    using unset_inv_run_inputs [OF assms, of E inputs] unset_inv_cycle [of s1 E cfg]
    by (simp add: run_def)
qed

lemma reachable_unset_inv: "reachable E cfg s \<Longrightarrow> unset_inv s"
  by (induction rule: reachable.induct)
    (simp_all add: unset_inv_init unset_inv_clear unset_inv_updateCache unset_inv_mergeCache
      unset_inv_publish unset_inv_run unset_inv_endOfStream)

text \<open>
  C1, as the code has it. In a state an instance can reach, when \<^verbatim>\<open>mergeCache\<close> returns with
  no merged object (no template is stored), the \<^verbatim>\<open>publish\<close> that follows throws nothing,
  hands nothing to the allocator and leaves the five counters as they are: all of them are
  zero, so adding the per-cycle counters to the totals and zeroing them changes nothing.
  But the statistics after the \<^verbatim>\<open>if\<close> chain are not skipped: the five metrics are sent,
  each with the value 0. Nothing else of the object changes.
\<close>

theorem publish_after_empty_merge:
  assumes "reachable E cfg s"
    and "mergeCache E s = Inr s'"
    and "mMergedObject s' = Monostate"
  shows "publish E cfg s' =
     Inr (s'\<lparr>mCollector := mCollector s' @
               [(0, ''total_objects_merged'', RATE),
                (0, ''objects_merged_since_last_publication'', NONE),
                (0, ''total_updates_received'', RATE),
                (0, ''updates_received_since_last_publication'', NONE),
                (0, ''cycles_since_reset'', NONE)]\<rparr>)
     \<and> mCyclesSinceReset s' = 0 \<and> mObjectsMerged s' = 0 \<and> mTotalObjectsMerged s' = 0
     \<and> mUpdatesReceived s' = 0 \<and> mTotalUpdatesReceived s' = 0
     \<and> s' = s"
proof -
  have same: "s' = s" using mergeCache_Monostate [OF assms(2,3)] .
  have "so_payload (snd (mFirstObjectSerialized s)) = None"
  proof (rule ccontr)
    assume "so_payload (snd (mFirstObjectSerialized s)) \<noteq> None"
    then show False using mergeCache_result_kind [OF assms(2)] assms(3) by simp
  qed
  then have zero: "mMergedObject s = Monostate" "mCyclesSinceReset s = 0"
    "mTotalObjectsMerged s = 0" "mObjectsMerged s = 0"
    "mTotalUpdatesReceived s = 0" "mUpdatesReceived s = 0"
    using reachable_unset_inv [OF assms(1)] by (simp_all add: unset_inv_def)
  show ?thesis
    using same zero by (simp add: publish_def send_stats_def Let_def)
qed

theorem publish_after_empty_merge_witness:
  "reachable (adding_env True) (ncycles 1) init
   \<and> mergeCache (adding_env True) init = Inr init
   \<and> mMergedObject (init :: int FullHistoryMerger) = Monostate
   \<and> publish (adding_env True) (ncycles 1) init =
       Inr (init\<lparr>mCollector :=
         [(0, ''total_objects_merged'', RATE),
          (0, ''objects_merged_since_last_publication'', NONE),
          (0, ''total_updates_received'', RATE),
          (0, ''updates_received_since_last_publication'', NONE),
          (0, ''cycles_since_reset'', NONE)]\<rparr>)"
proof -
  have r: "reachable (adding_env True) (ncycles 1) init"
    by (rule reach_init)
  have m: "mergeCache (adding_env True) init = Inr init"
    by (simp add: mergeCache_def init_def null_object_def)
  have e: "mMergedObject (init :: int FullHistoryMerger) = Monostate"
    by (simp add: init_def)
  show ?thesis
    using publish_after_empty_merge [OF r m e] r m e
    by (simp add: init_def)
qed

text \<open>
  C1 as stated fails on the initial state: the merge returns with no merged object, and
  the publish that follows sends five metrics to the collector.
\<close>

theorem publish_after_empty_merge_sends_metrics:
  "mergeCache (adding_env True) init = Inr init
   \<and> mMergedObject (init :: int FullHistoryMerger) = Monostate
   \<and> mCollector (init :: int FullHistoryMerger) = []
   \<and> mCollector (state_of (publish (adding_env True) (ncycles 1) init)) =
         [(0, ''total_objects_merged'', RATE),
          (0, ''objects_merged_since_last_publication'', NONE),
          (0, ''total_updates_received'', RATE),
          (0, ''updates_received_since_last_publication'', NONE),
          (0, ''cycles_since_reset'', NONE)]"
  by (simp add: example_defs)

section \<open>\<^verbatim>\<open>updateCache\<close>\<close>






text \<open>
  C8, as the code has it. Let the payload of an update be one that \<^verbatim>\<open>extractObjectFrom\<close>
  cannot deserialize.
  \<^item> If a template is stored and belongs to another origin, \<^verbatim>\<open>updateCache\<close> throws, the
    error leaves \<^verbatim>\<open>run\<close> as well (the inputs after the update, the timer among them, are
    not processed by that call), and the object is exactly as it was before the update
    (stored objects and counters): later calls see the state they would have seen without
    the update.
  \<^item> If no template is stored, or the template belongs to the update's origin, the bytes
    go into the template slot without being deserialized: \<^verbatim>\<open>updateCache\<close> returns
    normally, and it is \<^verbatim>\<open>mergeCache\<close> that throws on the state it leaves.
\<close>

theorem undecodable_update:
  assumes "extractObjectFrom E (ref_header ref) (ref_payload ref) = None"
  shows "if fst (mFirstObjectSerialized s) = [] \<or> fst (mFirstObjectSerialized s) = sourceID (ref_header ref)
     then updateCache E s ref =
            Inr (s\<lparr>mFirstObjectSerialized :=
                     (sourceID (ref_header ref),
                      \<lparr>so_spec = Some (ref_spec ref), so_header = Some (ref_header ref),
                         so_payload = Some (ref_payload ref)\<rparr>)\<rparr>)
          \<and> mergeCache E (state_of (updateCache E s ref)) =
              Inl (DecodeFailure, state_of (updateCache E s ref))
     else updateCache E s ref = Inl (DecodeFailure, s)
          \<and> run_inputs E s (Data ref # rest) = Inl (DecodeFailure, s)
          \<and> run E cfg s (Data ref # rest) = Inl (DecodeFailure, s)"
proof (cases "fst (mFirstObjectSerialized s) = [] \<or> fst (mFirstObjectSerialized s) = sourceID (ref_header ref)")
  case True
  then show ?thesis using assms by (simp add: updateCache_template mergeCache_def)
next
  case False
  then have "updateCache E s ref = Inl (DecodeFailure, s)"
    using assms by (simp add: updateCache_cache)
  then show ?thesis using False by (simp add: run_def)
qed

theorem undecodable_update_witness:
  "extractObjectFrom (adding_env True) (ref_header (test_ref ''B'' ''bad'')) (ref_payload (test_ref ''B'' ''bad'')) = None
   \<and> updateCache (adding_env True)
        (init\<lparr>mFirstObjectSerialized := template_of ''A'' ''Tx'', mUpdatesReceived := 1\<rparr>)
        (test_ref ''B'' ''bad'') =
       Inl (DecodeFailure, init\<lparr>mFirstObjectSerialized := template_of ''A'' ''Tx'', mUpdatesReceived := 1\<rparr>)
   \<and> run (adding_env True) (ncycles 1)
        (init\<lparr>mFirstObjectSerialized := template_of ''A'' ''Tx'', mUpdatesReceived := 1\<rparr>)
        [Data (test_ref ''B'' ''bad''), Data (test_ref ''C'' ''Tx''), TimerPublish] =
       Inl (DecodeFailure, init\<lparr>mFirstObjectSerialized := template_of ''A'' ''Tx'', mUpdatesReceived := 1\<rparr>)"
proof -
  have a: "extractObjectFrom (adding_env True) (ref_header (test_ref ''B'' ''bad'')) (ref_payload (test_ref ''B'' ''bad'')) = None"
    by (simp add: example_defs)
  show ?thesis
    using a undecodable_update [OF a,
        of "init\<lparr>mFirstObjectSerialized := template_of ''A'' ''Tx'', mUpdatesReceived := 1\<rparr>"
           "[Data (test_ref ''C'' ''Tx''), TimerPublish]" "ncycles 1"]
    by (simp add: test_sourceID test_ref_def template_of_def)
qed

text \<open>
  C8 as stated fails when the undecodable payload is the first update after a reset: no
  failure is surfaced by \<^verbatim>\<open>updateCache\<close>, the stored state changes (the bytes become the
  template), and the cycle, although a valid update of another origin follows, ends in
  the decoding error instead of a merge and a publish.
\<close>

theorem undecodable_template_is_stored:
  "extractObjectFrom (adding_env True) (ref_header (test_ref ''A'' ''bad'')) (ref_payload (test_ref ''A'' ''bad'')) = None
   \<and> updateCache (adding_env True) init (test_ref ''A'' ''bad'') =
       Inr (init\<lparr>mFirstObjectSerialized := template_of ''A'' ''bad''\<rparr>)
   \<and> run (adding_env True) (ncycles 1) init
        [Data (test_ref ''A'' ''bad''), Data (test_ref ''B'' ''Tx''), TimerPublish] =
       Inl (DecodeFailure,
            init\<lparr>mFirstObjectSerialized := template_of ''A'' ''bad'',
                 mCache := [(''TST/B/0'', TObjectPtr 1)],
                 mUpdatesReceived := 2, mCyclesSinceReset := 1\<rparr>)"
  by (simp add: run_def cycle_def example_defs)

section \<open>One cycle after a reset\<close>













section \<open>The retention policy\<close>















section \<open>\<open>LastDifference\<close> and \<open>NCycles(1)\<close>\<close>









end
